theory Spec2Isabelle
  imports Complex_Main
begin

section \<open>Data model (types.ts)\<close>

text \<open>
  JavaScript numbers are modelled as real numbers (ideal arithmetic, no rounding, no NaN),
  the integer milliseconds returned by \<^verbatim>\<open>Date.now()\<close> as natural numbers, and the value
  of \<^verbatim>\<open>Math.random()\<close> as a parameter of the tick.
\<close>

datatype SystemMode = AUTO | MANUAL

datatype GateStatus = OPEN | CLOSED | OPENING | CLOSING | PARTIALLY_OPEN

datatype OrderStatus = ACTIVE | COMPLETED | CANCELLED

text \<open>The argument of \<^verbatim>\<open>startManualMove\<close>: \<^verbatim>\<open>'OPEN' | 'CLOSE'\<close>.\<close>

datatype Direction = DIR_OPEN | DIR_CLOSE

record SystemState =
  timestamp :: nat
  waterLevel :: real
  downstreamLevel :: real
  inflowRate :: real
  outflowRate :: real
  gateOpening :: real
  targetGateOpening :: real
  gateStatus :: GateStatus
  isRaining :: bool
  rainfallIntensity :: real
  currentPower :: real
  totalEnergy :: real
  totalCost :: real

record SimulationConfig =
  targetLevel :: real
  simulationSpeed :: real

record WateringOrder =
  id_order :: string
  clientName :: string
  hectares :: real
  targetVolume :: real
  deliveredVolume :: real
  startTime :: nat
  endTime :: "nat option"
  status :: OrderStatus
  powerConsumed :: real
  waterCost :: real

text \<open>
  The state of the \<^verbatim>\<open>App\<close> component: the \<^verbatim>\<open>useState\<close> cells \<^verbatim>\<open>mode\<close>, \<^verbatim>\<open>config\<close>,
  \<^verbatim>\<open>systemState\<close>, \<^verbatim>\<open>activeOrder\<close>, \<^verbatim>\<open>lastCompletedOrder\<close> and the refs
  \<^verbatim>\<open>activeOrderRef\<close> (the copy of \<^verbatim>\<open>activeOrder\<close> read inside the tick) and
  \<^verbatim>\<open>holdTimerRef\<close> (the direction of the running hold timer, if any).
\<close>

record AppState =
  mode :: SystemMode
  config :: SimulationConfig
  systemState :: SystemState
  activeOrder :: "WateringOrder option"
  lastCompletedOrder :: "WateringOrder option"
  activeOrderRef :: "WateringOrder option"
  holdTimerRef :: "Direction option"

section \<open>Constants\<close>

definition MAX_WATER_LEVEL :: real where "MAX_WATER_LEVEL = 12.0"
definition RESERVOIR_AREA :: real where "RESERVOIR_AREA = 1000"
definition GATE_SPEED :: real where "GATE_SPEED = 2.0"
definition MAX_GATE_HEIGHT_CM :: real where "MAX_GATE_HEIGHT_CM = 200"
definition MOTOR_POWER_ACTIVE :: real where "MOTOR_POWER_ACTIVE = 10.0"
definition MOTOR_POWER_STANDBY :: real where "MOTOR_POWER_STANDBY = 0.2"
definition ELEC_RATE_UZS :: real where "ELEC_RATE_UZS = 1000"
definition WATER_COST_PER_M3 :: real where "WATER_COST_PER_M3 = 100"

section \<open>Initial state\<close>

definition initialSystemState :: "nat \<Rightarrow> SystemState" where
  "initialSystemState now =
     \<lparr> timestamp = now, waterLevel = 5.0, downstreamLevel = 0.8, inflowRate = 36.0,
       outflowRate = 0.0, gateOpening = 0, targetGateOpening = 0, gateStatus = CLOSED,
       isRaining = False, rainfallIntensity = 0, currentPower = MOTOR_POWER_STANDBY,
       totalEnergy = 0, totalCost = 0 \<rparr>"

definition initialState :: "nat \<Rightarrow> AppState" where
  "initialState now =
     \<lparr> mode = AUTO,
       config = \<lparr> targetLevel = 5.0, simulationSpeed = 200 \<rparr>,
       systemState = initialSystemState now,
       activeOrder = None, lastCompletedOrder = None,
       activeOrderRef = None, holdTimerRef = None \<rparr>"

section \<open>Effects of the App component\<close>

text \<open>\<^verbatim>\<open>useEffect(() => { activeOrderRef.current = activeOrder; }, [activeOrder])\<close>\<close>

definition syncActiveOrderRef :: "AppState \<Rightarrow> AppState" where
  "syncActiveOrderRef a = a\<lparr>activeOrderRef := activeOrder a\<rparr>"

text \<open>The order completion check; \<open>now\<close> is the value of \<^verbatim>\<open>Date.now()\<close>.\<close>

definition completionCheck :: "nat \<Rightarrow> AppState \<Rightarrow> AppState" where
  "completionCheck now a =
     (case activeOrder a of
        None \<Rightarrow> a
      | Some ord \<Rightarrow>
          if deliveredVolume ord \<ge> targetVolume ord \<and> status ord = ACTIVE
          then a\<lparr>lastCompletedOrder := Some (ord\<lparr>status := COMPLETED, endTime := Some now\<rparr>),
                 activeOrder := None\<rparr>
          else a)"

text \<open>
  After a render in which \<^verbatim>\<open>activeOrder\<close> changed, both effects run in their order of
  declaration; the completion check may set \<^verbatim>\<open>activeOrder\<close> again, and the ref is
  synchronised once more after the render that follows.
\<close>

definition runEffects :: "nat \<Rightarrow> AppState \<Rightarrow> AppState" where
  "runEffects now a = syncActiveOrderRef (completionCheck now (syncActiveOrderRef a))"

section \<open>Manual control handlers\<close>

text \<open>The state updater of the initial move (one point) of \<^verbatim>\<open>startManualMove\<close>.\<close>

definition initialMove :: "Direction \<Rightarrow> SystemState \<Rightarrow> SystemState" where
  "initialMove direction prev =
     (let newTarget = targetGateOpening prev;
          newTarget = (if direction = DIR_OPEN then min 100 (newTarget + 1)
                       else max 0 (newTarget - 1))
      in prev\<lparr>targetGateOpening := newTarget\<rparr>)"

text \<open>The state updater run by the hold timer every 100 ms (two points).\<close>

definition continuousMove :: "Direction \<Rightarrow> SystemState \<Rightarrow> SystemState" where
  "continuousMove direction prev =
     (let newTarget = targetGateOpening prev;
          newTarget = (if direction = DIR_OPEN then min 100 (newTarget + 2)
                       else max 0 (newTarget - 2))
      in prev\<lparr>targetGateOpening := newTarget\<rparr>)"

definition startManualMove :: "Direction \<Rightarrow> AppState \<Rightarrow> AppState" where
  "startManualMove direction a =
     (if mode a \<noteq> MANUAL then a
      else a\<lparr>systemState := initialMove direction (systemState a),
             holdTimerRef := Some direction\<rparr>)"

text \<open>One firing of the interval stored in \<^verbatim>\<open>holdTimerRef\<close>.\<close>

definition holdTimerFire :: "AppState \<Rightarrow> AppState" where
  "holdTimerFire a =
     (case holdTimerRef a of
        None \<Rightarrow> a
      | Some direction \<Rightarrow> a\<lparr>systemState := continuousMove direction (systemState a)\<rparr>)"

definition stopManualMove :: "AppState \<Rightarrow> AppState" where
  "stopManualMove a = a\<lparr>holdTimerRef := None\<rparr>"

section \<open>Order management handlers\<close>

text \<open>\<^verbatim>\<open>Date.now().toString()\<close>: the decimal digits of a natural number.\<close>

fun toString :: "nat \<Rightarrow> string" where
  "toString n =
     (if n < 10 then [char_of (48 + n)]
      else toString (n div 10) @ [char_of (48 + n mod 10)])"

declare toString.simps [simp del]

text \<open>
  \<open>idNow\<close> and \<open>startNow\<close> are the values of the two calls of \<^verbatim>\<open>Date.now()\<close>.
\<close>

definition handleStartOrder :: "string \<Rightarrow> real \<Rightarrow> nat \<Rightarrow> nat \<Rightarrow> AppState \<Rightarrow> AppState" where
  "handleStartOrder name ha idNow startNow a =
     (let targetVol = ha * 1000
      in a\<lparr>activeOrder := Some
            \<lparr> id_order = toString idNow, clientName = name, hectares = ha,
              targetVolume = targetVol, deliveredVolume = 0, startTime = startNow,
              endTime = None, status = ACTIVE, powerConsumed = 0, waterCost = 0 \<rparr>\<rparr>)"

definition handleCancelOrder :: "AppState \<Rightarrow> AppState" where
  "handleCancelOrder a = a\<lparr>activeOrder := None\<rparr>"

text \<open>
  CottonOrder.tsx: the button that opens the order dialog is disabled while an order is
  active, and the report recomputes the water cost from the delivered volume.
\<close>

definition startButtonDisabled :: "AppState \<Rightarrow> bool" where
  "startButtonDisabled a = (activeOrder a \<noteq> None)"

definition reportWaterCost :: "WateringOrder \<Rightarrow> real" where
  "reportWaterCost ord = deliveredVolume ord * WATER_COST_PER_M3"

section \<open>The simulation tick\<close>

text \<open>Step 1, inflow; \<open>rnd\<close> is the value of \<^verbatim>\<open>Math.random()\<close>.\<close>

definition calcInflow :: "real \<Rightarrow> SystemState \<Rightarrow> real" where
  "calcInflow rnd prev =
     (let baseInflow = 36.0;
          rainEffect = (if isRaining prev then rainfallIntensity prev * 0.3 else 0);
          noise = (rnd - 0.5) * 2
      in max 0 (baseInflow + rainEffect + noise))"

text \<open>Step 2, control logic: the value of \<^verbatim>\<open>nextTargetGate\<close>.\<close>

definition controlLogic :: "AppState \<Rightarrow> real" where
  "controlLogic a =
     (let prev = systemState a in
      if activeOrderRef a \<noteq> None then 100
      else if mode a = AUTO then
        (let error = waterLevel prev - targetLevel (config a) in
         if error > 0.2 then min 100 (gateOpening prev + error * 5)
         else if error < - 0.2 then max 0 (gateOpening prev - 2)
         else gateOpening prev)
      else targetGateOpening prev)"

text \<open>Step 3, the gate moves towards the target: \<^verbatim>\<open>(nextGateOpening, isMoving)\<close>.\<close>

definition moveGate :: "real \<Rightarrow> real \<Rightarrow> real \<times> bool" where
  "moveGate gate nextTargetGate =
     (if \<bar>gate - nextTargetGate\<bar> < GATE_SPEED then (nextTargetGate, False)
      else if gate < nextTargetGate then (gate + GATE_SPEED, True)
      else (gate - GATE_SPEED, True))"

definition determineStatus :: "real \<Rightarrow> real \<Rightarrow> GateStatus" where
  "determineStatus prevGateOpening nextGateOpening =
     (if nextGateOpening > prevGateOpening then OPENING
      else if nextGateOpening < prevGateOpening then CLOSING
      else if nextGateOpening = 0 then CLOSED
      else if nextGateOpening = 100 then OPEN
      else PARTIALLY_OPEN)"

text \<open>
  Step 5, outflow. \<open>powArguments\<close> is the guard of the formula: \<open>None\<close> when the
  branch with \<^verbatim>\<open>Math.pow\<close> is skipped, and otherwise the two bases \<open>(h2, h1)\<close> on which
  \<^verbatim>\<open>Math.pow(_, 1.5)\<close> is called.
\<close>

definition currentGateHeightM :: "real \<Rightarrow> real" where
  "currentGateHeightM nextGateOpening =
     (let MAX_GATE_HEIGHT_M = MAX_GATE_HEIGHT_CM / 100
      in (nextGateOpening / 100) * MAX_GATE_HEIGHT_M)"

definition powArguments :: "real \<Rightarrow> real \<Rightarrow> (real \<times> real) option" where
  "powArguments level nextGateOpening =
     (let h2 = level;
          h1 = max 0 (level - currentGateHeightM nextGateOpening)
      in if level > 0.01 \<and> currentGateHeightM nextGateOpening > 0.01
         then Some (h2, h1) else None)"

definition calcOutflow :: "real \<Rightarrow> real \<Rightarrow> real" where
  "calcOutflow level nextGateOpening =
     (let Cd = 0.6; b = 3.0; g = 9.81 in
      case powArguments level nextGateOpening of
        None \<Rightarrow> 0
      | Some (h2, h1) \<Rightarrow>
          (let term1 = h2 powr 1.5; term2 = h1 powr 1.5
           in (2 / 3) * Cd * b * sqrt (2 * g) * (term1 - term2)))"

text \<open>Step 8, the updater passed to \<^verbatim>\<open>setActiveOrder\<close> by the tick.\<close>

definition updateOrderProgress :: "real \<Rightarrow> real \<Rightarrow> WateringOrder option \<Rightarrow> WateringOrder option" where
  "updateOrderProgress volumeIncrement powerIncrement cur =
     (case cur of
        None \<Rightarrow> None
      | Some c \<Rightarrow> Some (c\<lparr>deliveredVolume := deliveredVolume c + volumeIncrement,
                          powerConsumed := powerConsumed c + powerIncrement\<rparr>))"

definition tickSimulation :: "real \<Rightarrow> nat \<Rightarrow> AppState \<Rightarrow> AppState" where
  "tickSimulation rnd now a =
     (let prev = systemState a;
          inflow = calcInflow rnd prev;
          nextTargetGate = controlLogic a;
          nextGateOpening = fst (moveGate (gateOpening prev) nextTargetGate);
          isMoving = snd (moveGate (gateOpening prev) nextTargetGate);
          gstatus = determineStatus (gateOpening prev) nextGateOpening;
          dtSeconds = simulationSpeed (config a) / 1000;
          dtHours = dtSeconds / 3600;
          power = (if isMoving then MOTOR_POWER_ACTIVE else MOTOR_POWER_STANDBY);
          energyConsumed = power * dtHours;
          newTotalEnergy = totalEnergy prev + energyConsumed;
          newTotalCost = newTotalEnergy * ELEC_RATE_UZS;
          outflow = calcOutflow (waterLevel prev) nextGateOpening;
          netFlow = inflow - outflow;
          dH = (netFlow / RESERVOIR_AREA) * dtSeconds;
          newLevel = min MAX_WATER_LEVEL (max 0 (waterLevel prev + dH));
          targetDownstream = 0.5 + (outflow * 0.04);
          newDownstream = downstreamLevel prev + (targetDownstream - downstreamLevel prev) * 0.1;
          newOrder = (if activeOrderRef a \<noteq> None
                      then updateOrderProgress (outflow * dtSeconds) (power * (dtSeconds / 3600))
                             (activeOrder a)
                      else activeOrder a)
      in a\<lparr>systemState := prev\<lparr>timestamp := now, inflowRate := inflow, outflowRate := outflow,
                waterLevel := newLevel, downstreamLevel := newDownstream,
                gateOpening := nextGateOpening, targetGateOpening := nextTargetGate,
                gateStatus := gstatus, currentPower := power,
                totalEnergy := newTotalEnergy, totalCost := newTotalCost\<rparr>,
            activeOrder := newOrder\<rparr>)"

section \<open>Runs of the application\<close>

text \<open>
  The events that change the state: the simulation interval, the effects after a render,
  the manual buttons and the hold timer, the order dialog, the mode switch and the
  setpoint slider.
\<close>

datatype Event =
    Tick real nat
  | Effects nat
  | ManualDown Direction
  | HoldTimer
  | ManualUp
  | StartOrder string real nat nat
  | CancelOrder
  | ToggleMode
  | SetTargetLevel real

fun applyEvent :: "Event \<Rightarrow> AppState \<Rightarrow> AppState" where
  "applyEvent (Tick rnd now) a = tickSimulation rnd now a"
| "applyEvent (Effects now) a = runEffects now a"
| "applyEvent (ManualDown d) a = startManualMove d a"
| "applyEvent HoldTimer a = holdTimerFire a"
| "applyEvent ManualUp a = stopManualMove a"
| "applyEvent (StartOrder name ha idNow startNow) a = handleStartOrder name ha idNow startNow a"
| "applyEvent CancelOrder a = handleCancelOrder a"
| "applyEvent ToggleMode a = a\<lparr>mode := (if mode a = AUTO then MANUAL else AUTO)\<rparr>"
| "applyEvent (SetTargetLevel v) a = a\<lparr>config := (config a)\<lparr>targetLevel := v\<rparr>\<rparr>"

fun run :: "Event list \<Rightarrow> AppState \<Rightarrow> AppState" where
  "run [] a = a"
| "run (e # es) a = run es (applyEvent e a)"

section \<open>Predicates and sample states used in the properties\<close>

text \<open>The physical bounds of a telemetry snapshot.\<close>

definition bounded :: "SystemState \<Rightarrow> bool" where
  "bounded s =
     (0 \<le> waterLevel s \<and> waterLevel s \<le> MAX_WATER_LEVEL \<and>
      0 \<le> gateOpening s \<and> gateOpening s \<le> 100 \<and>
      0 \<le> targetGateOpening s \<and> targetGateOpening s \<le> 100)"

text \<open>The initial state switched to manual mode, with the OPEN button held down.\<close>

definition manualState :: AppState where
  "manualState = (initialState 0)\<lparr>mode := MANUAL, holdTimerRef := Some DIR_OPEN\<rparr>"

text \<open>A state with a given mode, water level, gate position and gate target.\<close>

definition gateState :: "SystemMode \<Rightarrow> real \<Rightarrow> real \<Rightarrow> real \<Rightarrow> AppState" where
  "gateState m level gate target =
     (initialState 0)\<lparr>mode := m, systemState := (initialSystemState 0)\<lparr>waterLevel := level,
        gateOpening := gate, targetGateOpening := target\<rparr>\<rparr>"

text \<open>The states after each tick of a sequence of ticks.\<close>

fun tickTrace :: "(real \<times> nat) list \<Rightarrow> AppState \<Rightarrow> AppState list" where
  "tickTrace [] a = []"
| "tickTrace ((rnd, now) # xs) a = tickSimulation rnd now a # tickTrace xs (tickSimulation rnd now a)"

text \<open>An order in progress, the state that holds it, and the same order fully delivered.\<close>

definition sampleOrder :: WateringOrder where
  "sampleOrder =
     \<lparr> id_order = ''1'', clientName = ''Javlon Dehqon'', hectares = 50, targetVolume = 50000,
       deliveredVolume = 500, startTime = 1, endTime = None, status = ACTIVE,
       powerConsumed = 0, waterCost = 0 \<rparr>"

definition orderState :: AppState where
  "orderState = (initialState 0)\<lparr>activeOrder := Some sampleOrder,
     activeOrderRef := Some sampleOrder\<rparr>"


text \<open>
  The orders held by the two order cells of the state, and those together with the copy
  in \<^verbatim>\<open>activeOrderRef\<close>; the number of held orders whose status is \<open>ACTIVE\<close>.
\<close>

definition slotOrders :: "WateringOrder option \<Rightarrow> WateringOrder list" where
  "slotOrders slot = (case slot of None \<Rightarrow> [] | Some ord \<Rightarrow> [ord])"

definition heldOrders :: "AppState \<Rightarrow> WateringOrder list" where
  "heldOrders a = slotOrders (activeOrder a) @ slotOrders (lastCompletedOrder a)"

definition allOrders :: "AppState \<Rightarrow> WateringOrder list" where
  "allOrders a = heldOrders a @ slotOrders (activeOrderRef a)"

definition activeCount :: "AppState \<Rightarrow> nat" where
  "activeCount a = length (filter (\<lambda>ord. status ord = ACTIVE) (heldOrders a))"

text \<open>Invariants of the runs: the statuses of the order cells, and the cost identity.\<close>

definition orderInv :: "AppState \<Rightarrow> bool" where
  "orderInv a =
     ((\<forall>ord. activeOrder a = Some ord \<longrightarrow> status ord = ACTIVE \<and> waterCost ord = 0) \<and>
      (\<forall>ord. activeOrderRef a = Some ord \<longrightarrow> status ord = ACTIVE \<and> waterCost ord = 0) \<and>
      (\<forall>ord. lastCompletedOrder a = Some ord \<longrightarrow> status ord = COMPLETED \<and> waterCost ord = 0))"

definition costInv :: "AppState \<Rightarrow> bool" where
  "costInv a =
     (simulationSpeed (config a) = 200 \<and>
      totalCost (systemState a) = totalEnergy (systemState a) * ELEC_RATE_UZS)"

section \<open>Projections of the tick\<close>

lemmas constants =
  MAX_WATER_LEVEL_def RESERVOIR_AREA_def GATE_SPEED_def MAX_GATE_HEIGHT_CM_def
  MOTOR_POWER_ACTIVE_def MOTOR_POWER_STANDBY_def ELEC_RATE_UZS_def

lemmas sample_defs = gateState_def initialState_def initialSystemState_def
  sampleOrder_def orderState_def

lemma tick_mode: "mode (tickSimulation rnd now a) = mode a"
  by (simp add: tickSimulation_def Let_def)

lemma tick_ref: "activeOrderRef (tickSimulation rnd now a) = activeOrderRef a"
  by (simp add: tickSimulation_def Let_def)

lemma tick_config: "config (tickSimulation rnd now a) = config a"
  by (simp add: tickSimulation_def Let_def)

lemma controlLogic_manual:
  "mode a = MANUAL \<Longrightarrow> activeOrderRef a = None \<Longrightarrow>
   controlLogic a = targetGateOpening (systemState a)"
  by (simp add: controlLogic_def)

lemma gateState_simps:
  "mode (gateState m l g t) = m" "activeOrderRef (gateState m l g t) = None"
  "targetGateOpening (systemState (gateState m l g t)) = t"
  "gateOpening (systemState (gateState m l g t)) = g"
  "waterLevel (systemState (gateState m l g t)) = l"
  by (simp_all add: sample_defs)

lemma tick_outflow:
  "outflowRate (systemState (tickSimulation rnd now a)) =
     calcOutflow (waterLevel (systemState a)) (gateOpening (systemState (tickSimulation rnd now a)))"
  by (simp add: tickSimulation_def Let_def)

lemma tick_lastCompleted: "lastCompletedOrder (tickSimulation rnd now a) = lastCompletedOrder a"
  by (simp add: tickSimulation_def Let_def)

lemma tick_activeOrder:
  "activeOrder (tickSimulation rnd now a) =
     (if activeOrderRef a \<noteq> None
      then updateOrderProgress
             (outflowRate (systemState (tickSimulation rnd now a)) *
                (simulationSpeed (config a) / 1000))
             (currentPower (systemState (tickSimulation rnd now a)) *
                (simulationSpeed (config a) / 1000 / 3600))
             (activeOrder a)
      else activeOrder a)"
  by (simp add: tickSimulation_def Let_def)

lemma tick_activeOrder_shape:
  "activeOrder a = Some ord \<Longrightarrow>
   \<exists>dv pc. activeOrder (tickSimulation rnd now a) =
     Some (ord\<lparr>deliveredVolume := dv, powerConsumed := pc\<rparr>)"
proof (cases "activeOrderRef a \<noteq> None")
  case True
  assume "activeOrder a = Some ord"
  with True have "activeOrder (tickSimulation rnd now a) =
     Some (ord\<lparr>deliveredVolume := deliveredVolume ord +
               outflowRate (systemState (tickSimulation rnd now a)) *
                 (simulationSpeed (config a) / 1000),
             powerConsumed := powerConsumed ord +
               currentPower (systemState (tickSimulation rnd now a)) *
                 (simulationSpeed (config a) / 1000 / 3600)\<rparr>)"
    unfolding tick_activeOrder by (simp add: updateOrderProgress_def)
  then show ?thesis by blast
next
  case False
  assume "activeOrder a = Some ord"
  with False have "activeOrder (tickSimulation rnd now a) =
     Some (ord\<lparr>deliveredVolume := deliveredVolume ord, powerConsumed := powerConsumed ord\<rparr>)"
    unfolding tick_activeOrder by simp
  then show ?thesis by blast
qed

lemma tick_activeOrder_None:
  "activeOrder a = None \<Longrightarrow> activeOrder (tickSimulation rnd now a) = None"
  unfolding tick_activeOrder by (simp add: updateOrderProgress_def)

lemma tick_energy:
  "totalEnergy (systemState (tickSimulation rnd now a)) =
     totalEnergy (systemState a) +
     currentPower (systemState (tickSimulation rnd now a)) *
       (simulationSpeed (config a) / 1000 / 3600)"
  by (simp add: tickSimulation_def Let_def)

lemma tick_power:
  "currentPower (systemState (tickSimulation rnd now a)) =
     (if snd (moveGate (gateOpening (systemState a)) (controlLogic a))
      then MOTOR_POWER_ACTIVE else MOTOR_POWER_STANDBY)"
  by (simp add: tickSimulation_def Let_def)

lemma tick_cost:
  "totalCost (systemState (tickSimulation rnd now a)) =
     totalEnergy (systemState (tickSimulation rnd now a)) * ELEC_RATE_UZS"
  by (simp add: tickSimulation_def Let_def)

lemma runEffects_ref: "activeOrderRef (runEffects t a) = activeOrder (runEffects t a)"
  by (simp add: runEffects_def syncActiveOrderRef_def)

lemma tick_waterLevel:
  "waterLevel (systemState (tickSimulation rnd now a)) =
     min MAX_WATER_LEVEL (max 0 (waterLevel (systemState a) +
       ((calcInflow rnd (systemState a) -
         calcOutflow (waterLevel (systemState a))
           (gateOpening (systemState (tickSimulation rnd now a)))) / RESERVOIR_AREA) *
       (simulationSpeed (config a) / 1000)))"
  by (simp add: tickSimulation_def Let_def)

lemma tick_target: "targetGateOpening (systemState (tickSimulation rnd now a)) = controlLogic a"
  by (simp add: tickSimulation_def Let_def)

lemma tick_gate:
  "gateOpening (systemState (tickSimulation rnd now a)) =
     fst (moveGate (gateOpening (systemState a)) (controlLogic a))"
  by (simp add: tickSimulation_def Let_def)

lemma controlLogic_bounds:
  assumes "0 \<le> gateOpening (systemState a)" "gateOpening (systemState a) \<le> 100"
    "0 \<le> targetGateOpening (systemState a)" "targetGateOpening (systemState a) \<le> 100"
  shows "0 \<le> controlLogic a \<and> controlLogic a \<le> 100"
  using assms by (auto simp: controlLogic_def Let_def)

lemma moveGate_bounds:
  assumes "0 \<le> g" "g \<le> 100" "0 \<le> t" "t \<le> 100"
  shows "0 \<le> fst (moveGate g t) \<and> fst (moveGate g t) \<le> 100"
  using assms by (auto simp: moveGate_def GATE_SPEED_def)

section \<open>C1: the physical bounds are preserved\<close>

text \<open>
  Claim C1. If the previous snapshot has its water level in \<open>[0, MAX_WATER_LEVEL]\<close> and its
  gate position and gate target in \<open>[0, 100]\<close>, then so has the snapshot produced by the tick,
  by the press of a manual button and by a firing of the hold timer, whatever the mode,
  the order and the sign of the net flow.
\<close>

theorem tick_preserves_bounds:
  assumes "bounded (systemState a)"
  shows "bounded (systemState (tickSimulation rnd now a)) \<and>
         bounded (systemState (startManualMove d a)) \<and>
         bounded (systemState (holdTimerFire a))"
proof -
  from assms have g: "0 \<le> gateOpening (systemState a)" "gateOpening (systemState a) \<le> 100"
    and t: "0 \<le> targetGateOpening (systemState a)" "targetGateOpening (systemState a) \<le> 100"
    by (simp_all add: bounded_def)
  have c: "0 \<le> controlLogic a \<and> controlLogic a \<le> 100"
    using controlLogic_bounds [OF g t] .
  have m: "0 \<le> fst (moveGate (gateOpening (systemState a)) (controlLogic a)) \<and>
           fst (moveGate (gateOpening (systemState a)) (controlLogic a)) \<le> 100"
    using moveGate_bounds g c by blast
  have 1: "bounded (systemState (tickSimulation rnd now a))"
    unfolding bounded_def tick_waterLevel tick_target tick_gate
    using c m by (simp add: MAX_WATER_LEVEL_def)
  have 2: "bounded (systemState (startManualMove d a))"
    using assms by (auto simp: bounded_def startManualMove_def initialMove_def Let_def)
  have 3: "bounded (systemState (holdTimerFire a))"
    using assms
    by (auto simp: bounded_def holdTimerFire_def continuousMove_def Let_def split: option.splits)
  from 1 2 3 show ?thesis by blast
qed

theorem tick_preserves_bounds_witness:
  "bounded (systemState manualState) \<and>
   bounded (systemState (tickSimulation (1/2) 1 manualState)) \<and>
   bounded (systemState (startManualMove DIR_CLOSE manualState)) \<and>
   bounded (systemState (holdTimerFire manualState)) \<and>
   targetGateOpening (systemState (startManualMove DIR_CLOSE manualState)) = 0 \<and>
   targetGateOpening (systemState (holdTimerFire manualState)) = 2"
proof -
  have h: "bounded (systemState manualState)"
    by (simp add: bounded_def manualState_def initialState_def initialSystemState_def
        MAX_WATER_LEVEL_def)
  have v: "targetGateOpening (systemState (startManualMove DIR_CLOSE manualState)) = 0 \<and>
   targetGateOpening (systemState (holdTimerFire manualState)) = 2"
    by (simp add: manualState_def initialState_def initialSystemState_def startManualMove_def
        holdTimerFire_def initialMove_def continuousMove_def)
  show ?thesis
    using h v tick_preserves_bounds [OF h, of "1/2" 1 DIR_CLOSE] by simp
qed

section \<open>Invariants of the order cells\<close>

lemma tick_orderInv: "orderInv a \<Longrightarrow> orderInv (tickSimulation rnd now a)"
  unfolding orderInv_def tick_ref tick_lastCompleted
  using tick_activeOrder_shape [of a _ rnd now] tick_activeOrder_None [of a rnd now]
  by (cases "activeOrder a") fastforce+

lemma applyEvent_orderInv: "orderInv a \<Longrightarrow> orderInv (applyEvent e a)"
proof (cases e)
  case (Tick rnd now)
  assume "orderInv a"
  then show ?thesis using Tick by (simp add: tick_orderInv)
qed (auto simp: orderInv_def runEffects_def syncActiveOrderRef_def completionCheck_def
      startManualMove_def holdTimerFire_def
      stopManualMove_def handleStartOrder_def handleCancelOrder_def Let_def
      split: option.splits if_splits)

lemma run_orderInv: "orderInv a \<Longrightarrow> orderInv (run es a)"
  by (induction es arbitrary: a) (simp_all add: applyEvent_orderInv)

lemma initial_orderInv: "orderInv (initialState t0)"
  by (simp add: orderInv_def initialState_def)

lemma reachable_orderInv: "orderInv (run es (initialState t0))"
  using run_orderInv [OF initial_orderInv] .

lemma orderInv_activeCount: "orderInv a \<Longrightarrow> activeCount a \<le> 1"
  by (auto simp: orderInv_def activeCount_def heldOrders_def slotOrders_def split: option.splits)

lemma orderInv_not_cancelled: "orderInv a \<Longrightarrow> CANCELLED \<notin> set (map status (allOrders a))"
  by (auto simp: orderInv_def allOrders_def heldOrders_def slotOrders_def split: option.splits)

lemma orderInv_waterCost: "orderInv a \<Longrightarrow> ord \<in> set (allOrders a) \<Longrightarrow> waterCost ord = 0"
  by (auto simp: orderInv_def allOrders_def heldOrders_def slotOrders_def split: option.splits)

section \<open>C2: a second start request\<close>

text \<open>
  Claim C2 says that a start request issued while an order is active leaves that order
  untouched. \<^verbatim>\<open>handleStartOrder\<close> has no such check: in a state that holds an active
  order with 500 cubic metres delivered, a second request puts the new order in the slot
  and the progress of the first one is gone.
\<close>

theorem second_start_overwrites_counterexample:
  "map_option status (activeOrder orderState) = Some ACTIVE \<and>
   map_option deliveredVolume (activeOrder orderState) = Some 500 \<and>
   activeOrder (handleStartOrder ''Second'' 10 7 7 orderState) \<noteq> activeOrder orderState \<and>
   map_option clientName (activeOrder (handleStartOrder ''Second'' 10 7 7 orderState))
     = Some ''Second'' \<and>
   map_option deliveredVolume (activeOrder (handleStartOrder ''Second'' 10 7 7 orderState))
     = Some 0"
  by (simp add: handleStartOrder_def sample_defs)

text \<open>
  Claim C2, amended. \<^verbatim>\<open>handleStartOrder\<close> always stores the new order in the active-order
  slot, whatever the slot held, and leaves the last completed order alone; the only guard
  is the trigger button of the dialog, disabled exactly while an order is active. In every
  run from the initial state at most one held order has the status \<open>ACTIVE\<close>, since there
  is one active-order slot and the other cell only holds completed orders.
\<close>

theorem start_order_replaces_slot:
  "activeOrder (handleStartOrder name ha idNow startNow a) =
     Some \<lparr> id_order = toString idNow, clientName = name, hectares = ha,
            targetVolume = ha * 1000, deliveredVolume = 0, startTime = startNow,
            endTime = None, status = ACTIVE, powerConsumed = 0, waterCost = 0 \<rparr> \<and>
   lastCompletedOrder (handleStartOrder name ha idNow startNow a) = lastCompletedOrder a \<and>
   startButtonDisabled a = (activeOrder a \<noteq> None) \<and>
   activeCount (run es (initialState t0)) \<le> 1"
  using orderInv_activeCount [OF reachable_orderInv, of es t0]
  by (simp add: handleStartOrder_def startButtonDisabled_def)

theorem start_order_replaces_slot_witness:
  "map_option clientName (activeOrder (handleStartOrder ''Second'' 10 7 7 orderState))
     = Some ''Second'' \<and>
   startButtonDisabled orderState \<and>
   activeCount (run [StartOrder ''First'' 50 1 1, Effects 2, StartOrder ''Second'' 10 7 7]
                  (initialState 0)) \<le> 1"
  using start_order_replaces_slot [of "''Second''" 10 7 7 orderState
      "[StartOrder ''First'' 50 1 1, Effects 2, StartOrder ''Second'' 10 7 7]" 0]
  by (simp add: sample_defs)

section \<open>C3: the control law\<close>

text \<open>
  Claim C3. The tick chooses the gate target by priority: 100 when the tick sees an order
  (through \<^verbatim>\<open>activeOrderRef\<close>, which equals \<^verbatim>\<open>activeOrder\<close> once the effects have run),
  whatever the mode; otherwise in AUTO mode, with the error \<open>waterLevel - targetLevel\<close>, the
  minimum of 100 and \<open>gateOpening + error * 5\<close> when the error exceeds 0.2, the maximum of
  0 and \<open>gateOpening - 2\<close> when it is below -0.2, and the current position inside the
  dead-band; otherwise, in MANUAL mode, the previous target.
\<close>

theorem control_law:
  "(activeOrderRef a \<noteq> None \<longrightarrow>
      targetGateOpening (systemState (tickSimulation rnd now a)) = 100) \<and>
   (activeOrderRef a = None \<and> mode a = AUTO \<and>
      waterLevel (systemState a) - targetLevel (config a) > 0.2 \<longrightarrow>
      targetGateOpening (systemState (tickSimulation rnd now a)) =
        min 100 (gateOpening (systemState a) +
                 (waterLevel (systemState a) - targetLevel (config a)) * 5)) \<and>
   (activeOrderRef a = None \<and> mode a = AUTO \<and>
      waterLevel (systemState a) - targetLevel (config a) < - 0.2 \<longrightarrow>
      targetGateOpening (systemState (tickSimulation rnd now a)) =
        max 0 (gateOpening (systemState a) - 2)) \<and>
   (activeOrderRef a = None \<and> mode a = AUTO \<and>
      \<bar>waterLevel (systemState a) - targetLevel (config a)\<bar> \<le> 0.2 \<longrightarrow>
      targetGateOpening (systemState (tickSimulation rnd now a)) = gateOpening (systemState a)) \<and>
   (activeOrderRef a = None \<and> mode a = MANUAL \<longrightarrow>
      targetGateOpening (systemState (tickSimulation rnd now a)) =
        targetGateOpening (systemState a)) \<and>
   activeOrderRef (runEffects t a) = activeOrder (runEffects t a)"
  unfolding tick_target
  by (auto simp: controlLogic_def Let_def runEffects_ref)

theorem control_law_witness:
  "targetGateOpening (systemState (tickSimulation (1/2) 1
      ((gateState AUTO 6 40 7)\<lparr>mode := MANUAL, activeOrderRef := Some sampleOrder\<rparr>))) = 100 \<and>
   targetGateOpening (systemState (tickSimulation (1/2) 1 (gateState AUTO 6 40 7))) = 45 \<and>
   targetGateOpening (systemState (tickSimulation (1/2) 1 (gateState AUTO 6 98 7))) = 100 \<and>
   targetGateOpening (systemState (tickSimulation (1/2) 1 (gateState AUTO 4.5 40 7))) = 38 \<and>
   targetGateOpening (systemState (tickSimulation (1/2) 1 (gateState AUTO 4.5 1 7))) = 0 \<and>
   targetGateOpening (systemState (tickSimulation (1/2) 1 (gateState AUTO 5.1 40 7))) = 40 \<and>
   targetGateOpening (systemState (tickSimulation (1/2) 1 ((gateState AUTO 6 40 7)\<lparr>mode := MANUAL\<rparr>))) = 7"
  using control_law [of "(gateState AUTO 6 40 7)\<lparr>mode := MANUAL, activeOrderRef := Some sampleOrder\<rparr>" "1/2" 1 0]
    control_law [of "gateState AUTO 6 40 7" "1/2" 1 0]
    control_law [of "gateState AUTO 6 98 7" "1/2" 1 0]
    control_law [of "gateState AUTO 4.5 40 7" "1/2" 1 0]
    control_law [of "gateState AUTO 4.5 1 7" "1/2" 1 0]
    control_law [of "gateState AUTO 5.1 40 7" "1/2" 1 0]
    control_law [of "(gateState AUTO 6 40 7)\<lparr>mode := MANUAL\<rparr>" "1/2" 1 0]
  by (simp add: sample_defs)

section \<open>C4: gate kinematics\<close>

lemma moveGate_step:
  "\<bar>fst (moveGate g t) - g\<bar> \<le> GATE_SPEED \<and>
   (\<bar>g - t\<bar> < GATE_SPEED \<longrightarrow> moveGate g t = (t, False)) \<and>
   (\<not> \<bar>g - t\<bar> < GATE_SPEED \<and> g < t \<longrightarrow> moveGate g t = (g + GATE_SPEED, True) \<and> g + GATE_SPEED \<le> t) \<and>
   (\<not> \<bar>g - t\<bar> < GATE_SPEED \<and> t < g \<longrightarrow> moveGate g t = (g - GATE_SPEED, True) \<and> t \<le> g - GATE_SPEED)"
  by (auto simp: moveGate_def GATE_SPEED_def)

lemma trace_holds_target:
  assumes "\<forall>b \<in> set (tickTrace xs a). targetGateOpening (systemState b) = t"
    and "\<bar>gateOpening (systemState a) - t\<bar> < GATE_SPEED"
  shows "\<forall>b \<in> set (tickTrace xs a). gateOpening (systemState b) = t"
  using assms
proof (induction xs arbitrary: a)
  case Nil
  then show ?case by simp
next
  case (Cons x xs)
  obtain rnd now where x: "x = (rnd, now)" by (cases x)
  let ?b = "tickSimulation rnd now a"
  from Cons.prems(1) x have tb: "targetGateOpening (systemState ?b) = t" by simp
  then have c: "controlLogic a = t" by (simp add: tick_target)
  have gb: "gateOpening (systemState ?b) = t"
    using Cons.prems(2) c by (simp add: tick_gate moveGate_def)
  have "\<forall>b \<in> set (tickTrace xs ?b). gateOpening (systemState b) = t"
  proof (rule Cons.IH)
    show "\<forall>b \<in> set (tickTrace xs ?b). targetGateOpening (systemState b) = t"
      using Cons.prems(1) x by simp
    show "\<bar>gateOpening (systemState ?b) - t\<bar> < GATE_SPEED"
      using gb by (simp add: GATE_SPEED_def)
  qed
  with gb x show ?case by simp
qed

text \<open>
  Claim C4. In one tick the gate position changes by at most \<open>GATE_SPEED\<close>; when the
  position is less than one step away from the target of the tick it becomes the target,
  and otherwise it moves by exactly \<open>GATE_SPEED\<close> towards the target without passing it.
  So, over any sequence of ticks whose target stays at \<open>t\<close>, a gate that starts less than
  one step away from \<open>t\<close> is at \<open>t\<close> after every tick.
\<close>

theorem gate_kinematics:
  "\<bar>gateOpening (systemState (tickSimulation rnd now a)) - gateOpening (systemState a)\<bar>
     \<le> GATE_SPEED \<and>
   (\<bar>gateOpening (systemState a) - targetGateOpening (systemState (tickSimulation rnd now a))\<bar>
       < GATE_SPEED \<longrightarrow>
      gateOpening (systemState (tickSimulation rnd now a)) =
        targetGateOpening (systemState (tickSimulation rnd now a))) \<and>
   (\<not> \<bar>gateOpening (systemState a) - targetGateOpening (systemState (tickSimulation rnd now a))\<bar>
       < GATE_SPEED \<and>
    gateOpening (systemState a) < targetGateOpening (systemState (tickSimulation rnd now a)) \<longrightarrow>
      gateOpening (systemState (tickSimulation rnd now a)) =
        gateOpening (systemState a) + GATE_SPEED \<and>
      gateOpening (systemState (tickSimulation rnd now a)) \<le>
        targetGateOpening (systemState (tickSimulation rnd now a))) \<and>
   (\<not> \<bar>gateOpening (systemState a) - targetGateOpening (systemState (tickSimulation rnd now a))\<bar>
       < GATE_SPEED \<and>
    targetGateOpening (systemState (tickSimulation rnd now a)) < gateOpening (systemState a) \<longrightarrow>
      gateOpening (systemState (tickSimulation rnd now a)) =
        gateOpening (systemState a) - GATE_SPEED \<and>
      targetGateOpening (systemState (tickSimulation rnd now a)) \<le>
        gateOpening (systemState (tickSimulation rnd now a))) \<and>
   ((\<forall>b \<in> set (tickTrace xs a). targetGateOpening (systemState b) = t) \<and>
    \<bar>gateOpening (systemState a) - t\<bar> < GATE_SPEED \<longrightarrow>
      (\<forall>b \<in> set (tickTrace xs a). gateOpening (systemState b) = t))"
proof -
  have "\<bar>fst (moveGate (gateOpening (systemState a)) (controlLogic a)) - gateOpening (systemState a)\<bar> \<le> GATE_SPEED"
    using moveGate_step by blast
  moreover have "\<bar>gateOpening (systemState a) - controlLogic a\<bar> < GATE_SPEED \<longrightarrow>
     fst (moveGate (gateOpening (systemState a)) (controlLogic a)) = controlLogic a"
    by (simp add: moveGate_def)
  moreover have "\<not> \<bar>gateOpening (systemState a) - controlLogic a\<bar> < GATE_SPEED \<and>
     gateOpening (systemState a) < controlLogic a \<longrightarrow>
     fst (moveGate (gateOpening (systemState a)) (controlLogic a)) = gateOpening (systemState a) + GATE_SPEED \<and>
     fst (moveGate (gateOpening (systemState a)) (controlLogic a)) \<le> controlLogic a"
    by (auto simp: moveGate_def GATE_SPEED_def)
  moreover have "\<not> \<bar>gateOpening (systemState a) - controlLogic a\<bar> < GATE_SPEED \<and>
     controlLogic a < gateOpening (systemState a) \<longrightarrow>
     fst (moveGate (gateOpening (systemState a)) (controlLogic a)) = gateOpening (systemState a) - GATE_SPEED \<and>
     controlLogic a \<le> fst (moveGate (gateOpening (systemState a)) (controlLogic a))"
    by (auto simp: moveGate_def GATE_SPEED_def)
  moreover have "(\<forall>b \<in> set (tickTrace xs a). targetGateOpening (systemState b) = t) \<and>
    \<bar>gateOpening (systemState a) - t\<bar> < GATE_SPEED \<longrightarrow>
      (\<forall>b \<in> set (tickTrace xs a). gateOpening (systemState b) = t)"
    using trace_holds_target by blast
  ultimately show ?thesis
    unfolding tick_target tick_gate by blast
qed

theorem gate_kinematics_witness:
  "gateOpening (systemState (tickSimulation (1/2) 1 (gateState MANUAL 5 49 50))) = 50 \<and>
   gateOpening (systemState (tickSimulation (1/2) 1 (gateState MANUAL 5 40 50))) = 42 \<and>
   gateOpening (systemState (tickSimulation (1/2) 1 (gateState MANUAL 5 40 30))) = 38 \<and>
   map (\<lambda>b. targetGateOpening (systemState b))
     (tickTrace [(1/2, 1), (1/4, 2), (3/4, 3)] (gateState MANUAL 5 49 50)) = [50, 50, 50] \<and>
   \<bar>gateOpening (systemState (gateState MANUAL 5 49 50)) - 50\<bar> < GATE_SPEED \<and>
   map (\<lambda>b. gateOpening (systemState b))
     (tickTrace [(1/2, 1), (1/4, 2), (3/4, 3)] (gateState MANUAL 5 49 50)) = [50, 50, 50]"
proof -
  have h: "(\<forall>b \<in> set (tickTrace [(1/2, 1), (1/4, 2), (3/4, 3)] (gateState MANUAL 5 49 50)).
      targetGateOpening (systemState b) = 50) \<and>
   \<bar>gateOpening (systemState (gateState MANUAL 5 49 50)) - 50\<bar> < GATE_SPEED"
    by (simp add: tick_target tick_mode tick_ref controlLogic_manual gateState_simps
        GATE_SPEED_def)
  show ?thesis
    using h gate_kinematics [of "1/2" 1 "gateState MANUAL 5 49 50" "[(1/2, 1), (1/4, 2), (3/4, 3)]" 50]
      gate_kinematics [of "1/2" 1 "gateState MANUAL 5 40 50" "[]" 0]
      gate_kinematics [of "1/2" 1 "gateState MANUAL 5 40 30" "[]" 0]
    by (simp add: tick_target tick_mode tick_ref controlLogic_manual gateState_simps
        GATE_SPEED_def)
qed

section \<open>C5: the gate status\<close>

text \<open>
  Claim C5. The gate status after a tick is a function of the previous and the new gate
  position alone: \<open>OPENING\<close> if the position increased, \<open>CLOSING\<close> if it decreased, and
  otherwise \<open>CLOSED\<close> at 0, \<open>OPEN\<close> at 100 and \<open>PARTIALLY_OPEN\<close> elsewhere.
\<close>

theorem gate_status_derivation:
  "gateStatus (systemState (tickSimulation rnd now a)) =
     (if gateOpening (systemState (tickSimulation rnd now a)) > gateOpening (systemState a)
      then OPENING
      else if gateOpening (systemState (tickSimulation rnd now a)) < gateOpening (systemState a)
      then CLOSING
      else if gateOpening (systemState (tickSimulation rnd now a)) = 0 then CLOSED
      else if gateOpening (systemState (tickSimulation rnd now a)) = 100 then OPEN
      else PARTIALLY_OPEN)"
  by (simp add: tickSimulation_def Let_def determineStatus_def)

theorem gate_status_derivation_witness:
  "gateStatus (systemState (tickSimulation (1/2) 3 (gateState MANUAL 5 0 0))) = CLOSED \<and>
   gateStatus (systemState (tickSimulation (1/2) 3 (gateState MANUAL 5 100 100))) = OPEN \<and>
   gateStatus (systemState (tickSimulation (1/2) 3 (gateState MANUAL 5 40 50))) = OPENING \<and>
   gateStatus (systemState (tickSimulation (1/2) 3 (gateState MANUAL 5 40 30))) = CLOSING \<and>
   gateStatus (systemState (tickSimulation (1/2) 3 (gateState MANUAL 5 40 40))) = PARTIALLY_OPEN \<and>
   gateStatus (systemState (tickSimulation (1/2) 3 (gateState MANUAL 5 99 100))) = OPENING"
proof -
  have g: "gateOpening (systemState (tickSimulation (1/2) n (gateState MANUAL 5 p t))) =
     fst (moveGate p t)" for n p t
    by (simp add: tick_gate controlLogic_manual gateState_simps)
  show ?thesis
    using gate_status_derivation [of "1/2" 3 "gateState MANUAL 5 0 0"]
      gate_status_derivation [of "1/2" 3 "gateState MANUAL 5 100 100"]
      gate_status_derivation [of "1/2" 3 "gateState MANUAL 5 40 50"]
      gate_status_derivation [of "1/2" 3 "gateState MANUAL 5 40 30"]
      gate_status_derivation [of "1/2" 3 "gateState MANUAL 5 40 40"]
      gate_status_derivation [of "1/2" 3 "gateState MANUAL 5 99 100"]
    by (simp add: g gateState_simps moveGate_def GATE_SPEED_def)
qed

section \<open>C6: the outflow and its guards\<close>

lemma calcOutflow_formula:
  "calcOutflow level gate =
     (if level > 0.01 \<and> gate / 100 * 2 > 0.01
      then (2 / 3) * 0.6 * 3.0 * sqrt (2 * 9.81) *
           (level powr 1.5 - (max 0 (level - gate / 100 * 2)) powr 1.5)
      else 0)"
  by (simp add: calcOutflow_def powArguments_def currentGateHeightM_def MAX_GATE_HEIGHT_CM_def
      Let_def)

lemma powArguments_nonneg:
  "powArguments level gate = Some (h2, h1) \<Longrightarrow>
     0 < h2 \<and> 0 \<le> h1 \<and> h2 = level \<and> h1 = max 0 (level - gate / 100 * 2)"
  by (auto simp: powArguments_def currentGateHeightM_def MAX_GATE_HEIGHT_CM_def Let_def
      split: if_splits)

text \<open>
  Claim C6. With the gate height in metres taken from the gate position the tick has just
  computed, the outflow of a tick is the orifice formula when the previous water level
  and the gate height both exceed 0.01, and 0 otherwise; it is 0 when that gate position
  is 0 and when the water level is at most 0.01; and whenever \<^verbatim>\<open>Math.pow\<close> is called,
  its first base is positive and its second base is not negative.
\<close>

theorem outflow_guarded:
  "outflowRate (systemState (tickSimulation rnd now a)) =
     (if waterLevel (systemState a) > 0.01 \<and>
         gateOpening (systemState (tickSimulation rnd now a)) / 100 * 2 > 0.01
      then (2 / 3) * 0.6 * 3.0 * sqrt (2 * 9.81) *
           (waterLevel (systemState a) powr 1.5 -
            (max 0 (waterLevel (systemState a) -
                    gateOpening (systemState (tickSimulation rnd now a)) / 100 * 2)) powr 1.5)
      else 0) \<and>
   (gateOpening (systemState (tickSimulation rnd now a)) = 0 \<longrightarrow>
      outflowRate (systemState (tickSimulation rnd now a)) = 0) \<and>
   (waterLevel (systemState a) \<le> 0.01 \<longrightarrow>
      outflowRate (systemState (tickSimulation rnd now a)) = 0) \<and>
   (\<forall>h2 h1. powArguments (waterLevel (systemState a))
               (gateOpening (systemState (tickSimulation rnd now a))) = Some (h2, h1) \<longrightarrow>
      0 < h2 \<and> 0 \<le> h1)"
proof -
  have f: "outflowRate (systemState (tickSimulation rnd now a)) =
     (if waterLevel (systemState a) > 0.01 \<and>
         gateOpening (systemState (tickSimulation rnd now a)) / 100 * 2 > 0.01
      then (2 / 3) * 0.6 * 3.0 * sqrt (2 * 9.81) *
           (waterLevel (systemState a) powr 1.5 -
            (max 0 (waterLevel (systemState a) -
                    gateOpening (systemState (tickSimulation rnd now a)) / 100 * 2)) powr 1.5)
      else 0)"
    unfolding tick_outflow by (rule calcOutflow_formula)
  have z: "gateOpening (systemState (tickSimulation rnd now a)) = 0 \<longrightarrow>
      outflowRate (systemState (tickSimulation rnd now a)) = 0"
    unfolding tick_outflow by (simp add: calcOutflow_formula)
  have w: "waterLevel (systemState a) \<le> 0.01 \<longrightarrow>
      outflowRate (systemState (tickSimulation rnd now a)) = 0"
    unfolding tick_outflow by (simp add: calcOutflow_formula)
  have p: "\<forall>h2 h1. powArguments (waterLevel (systemState a))
               (gateOpening (systemState (tickSimulation rnd now a))) = Some (h2, h1) \<longrightarrow>
      0 < h2 \<and> 0 \<le> h1"
    using powArguments_nonneg by blast
  from f z w p show ?thesis by blast
qed

theorem outflow_guarded_witness:
  "outflowRate (systemState (tickSimulation (1/2) 1 (gateState MANUAL 5 0 0))) = 0 \<and>
   outflowRate (systemState (tickSimulation (1/2) 1 (gateState MANUAL (1/100) 50 50))) = 0 \<and>
   powArguments 5 50 = Some (5, 4) \<and>
   outflowRate (systemState (tickSimulation (1/2) 1 (gateState MANUAL 5 50 50))) =
     (2 / 3) * 0.6 * 3.0 * sqrt (2 * 9.81) * (5 powr 1.5 - 4 powr 1.5)"
proof -
  have g: "gateOpening (systemState (tickSimulation (1/2) n (gateState MANUAL l t t))) = t"
    for l t n
    by (simp add: tick_gate controlLogic_manual gateState_simps moveGate_def GATE_SPEED_def)
  have p: "powArguments 5 50 = Some (5, 4)"
    by (simp add: powArguments_def currentGateHeightM_def MAX_GATE_HEIGHT_CM_def Let_def)
  show ?thesis
    using p outflow_guarded [of "1/2" 1 "gateState MANUAL 5 0 0"]
      outflow_guarded [of "1/2" 1 "gateState MANUAL (1/100) 50 50"]
      outflow_guarded [of "1/2" 1 "gateState MANUAL 5 50 50"]
    by (simp add: g gateState_simps)
qed

section \<open>C7: energy and cost\<close>

lemma tick_power_pos: "0 < currentPower (systemState (tickSimulation rnd now a))"
  by (simp add: tick_power constants)

lemma tick_energy_mono:
  assumes "0 \<le> simulationSpeed (config a)"
  shows "totalEnergy (systemState a) \<le> totalEnergy (systemState (tickSimulation rnd now a))"
proof -
  have "0 \<le> currentPower (systemState (tickSimulation rnd now a)) *
       (simulationSpeed (config a) / 1000 / 3600)"
    using assms tick_power_pos [of rnd now a] by simp
  then show ?thesis unfolding tick_energy by simp
qed

lemma tick_cost_mono:
  assumes "0 \<le> simulationSpeed (config a)"
    and "totalCost (systemState a) = totalEnergy (systemState a) * ELEC_RATE_UZS"
  shows "totalCost (systemState a) \<le> totalCost (systemState (tickSimulation rnd now a))"
  using tick_energy_mono [OF assms(1), of rnd now] assms(2)
  by (simp add: tick_cost ELEC_RATE_UZS_def)

lemma applyEvent_costInv: "costInv a \<Longrightarrow> costInv (applyEvent e a)"
proof (cases e)
  case (Tick rnd now)
  assume "costInv a"
  then show ?thesis using Tick by (simp add: costInv_def tick_cost tick_config)
qed (auto simp: costInv_def runEffects_def syncActiveOrderRef_def completionCheck_def
      startManualMove_def initialMove_def holdTimerFire_def continuousMove_def
      stopManualMove_def handleStartOrder_def handleCancelOrder_def Let_def
      split: option.splits)

lemma run_costInv: "costInv a \<Longrightarrow> costInv (run es a)"
  by (induction es arbitrary: a) (simp_all add: applyEvent_costInv)

lemma initial_costInv: "costInv (initialState t0)"
  by (simp add: costInv_def initialState_def initialSystemState_def)

text \<open>
  Claim C7. A tick adds \<open>currentPower * dt_s / 3600\<close> to the total energy, where the
  current power is one of the two positive motor powers, and the total cost after the tick
  is the total energy times the positive rate. For a tick period that is not negative the
  total energy does not decrease, and neither does the total cost when it was the energy
  times the rate before the tick; both hold in every state of a run from the initial state.
\<close>

theorem energy_cost_accounting:
  "totalEnergy (systemState (tickSimulation rnd now a)) =
     totalEnergy (systemState a) +
     currentPower (systemState (tickSimulation rnd now a)) *
       (simulationSpeed (config a) / 1000 / 3600) \<and>
   (currentPower (systemState (tickSimulation rnd now a)) = MOTOR_POWER_ACTIVE \<or>
    currentPower (systemState (tickSimulation rnd now a)) = MOTOR_POWER_STANDBY) \<and>
   0 < MOTOR_POWER_ACTIVE \<and> 0 < MOTOR_POWER_STANDBY \<and> 0 < ELEC_RATE_UZS \<and>
   totalCost (systemState (tickSimulation rnd now a)) =
     totalEnergy (systemState (tickSimulation rnd now a)) * ELEC_RATE_UZS \<and>
   (0 \<le> simulationSpeed (config a) \<longrightarrow>
      totalEnergy (systemState a) \<le> totalEnergy (systemState (tickSimulation rnd now a))) \<and>
   (0 \<le> simulationSpeed (config a) \<and>
    totalCost (systemState a) = totalEnergy (systemState a) * ELEC_RATE_UZS \<longrightarrow>
      totalCost (systemState a) \<le> totalCost (systemState (tickSimulation rnd now a))) \<and>
   (a = run es (initialState t0) \<longrightarrow>
      totalEnergy (systemState a) \<le> totalEnergy (systemState (tickSimulation rnd now a)) \<and>
      totalCost (systemState a) \<le> totalCost (systemState (tickSimulation rnd now a)))"
proof -
  have r: "a = run es (initialState t0) \<longrightarrow>
      totalEnergy (systemState a) \<le> totalEnergy (systemState (tickSimulation rnd now a)) \<and>
      totalCost (systemState a) \<le> totalCost (systemState (tickSimulation rnd now a))"
  proof
    assume "a = run es (initialState t0)"
    then have "costInv a" using run_costInv [OF initial_costInv] by simp
    then have "0 \<le> simulationSpeed (config a)"
      and "totalCost (systemState a) = totalEnergy (systemState a) * ELEC_RATE_UZS"
      by (simp_all add: costInv_def)
    then show "totalEnergy (systemState a) \<le> totalEnergy (systemState (tickSimulation rnd now a)) \<and>
      totalCost (systemState a) \<le> totalCost (systemState (tickSimulation rnd now a))"
      using tick_energy_mono tick_cost_mono by blast
  qed
  have p: "currentPower (systemState (tickSimulation rnd now a)) = MOTOR_POWER_ACTIVE \<or>
    currentPower (systemState (tickSimulation rnd now a)) = MOTOR_POWER_STANDBY"
    by (simp add: tick_power)
  have c: "0 < MOTOR_POWER_ACTIVE \<and> 0 < MOTOR_POWER_STANDBY \<and> 0 < ELEC_RATE_UZS"
    by (simp add: constants)
  from r p c tick_energy [of rnd now a] tick_cost [of rnd now a]
    tick_energy_mono [of a rnd now] tick_cost_mono [of a rnd now]
  show ?thesis by blast
qed

theorem energy_cost_accounting_witness:
  "0 \<le> simulationSpeed (config (gateState MANUAL 5 40 50)) \<and>
   totalCost (systemState (gateState MANUAL 5 40 50)) =
     totalEnergy (systemState (gateState MANUAL 5 40 50)) * ELEC_RATE_UZS \<and>
   totalEnergy (systemState (tickSimulation (1/2) 1 (gateState MANUAL 5 40 50))) = 1 / 1800 \<and>
   totalCost (systemState (tickSimulation (1/2) 1 (gateState MANUAL 5 40 50))) = 5 / 9 \<and>
   totalCost (systemState (gateState MANUAL 5 40 50))
     \<le> totalCost (systemState (tickSimulation (1/2) 1 (gateState MANUAL 5 40 50))) \<and>
   initialState 0 = run [] (initialState 0) \<and>
   totalEnergy (systemState (initialState 0))
     \<le> totalEnergy (systemState (tickSimulation (1/2) 1 (initialState 0))) \<and>
   totalCost (systemState (initialState 0))
     \<le> totalCost (systemState (tickSimulation (1/2) 1 (initialState 0)))"
proof -
  have h: "0 \<le> simulationSpeed (config (gateState MANUAL 5 40 50)) \<and>
   totalCost (systemState (gateState MANUAL 5 40 50)) =
     totalEnergy (systemState (gateState MANUAL 5 40 50)) * ELEC_RATE_UZS"
    by (simp add: sample_defs)
  have v: "currentPower (systemState (tickSimulation (1/2) 1 (gateState MANUAL 5 40 50))) = 10"
    by (simp add: tick_power controlLogic_manual gateState_simps moveGate_def constants)
  have e: "totalEnergy (systemState (gateState MANUAL 5 40 50)) = 0"
    "simulationSpeed (config (gateState MANUAL 5 40 50)) = 200"
    by (simp_all add: sample_defs)
  have w1: "totalEnergy (systemState (tickSimulation (1/2) 1 (gateState MANUAL 5 40 50))) = 1 / 1800 \<and>
   totalCost (systemState (tickSimulation (1/2) 1 (gateState MANUAL 5 40 50))) = 5 / 9 \<and>
   totalCost (systemState (gateState MANUAL 5 40 50))
     \<le> totalCost (systemState (tickSimulation (1/2) 1 (gateState MANUAL 5 40 50)))"
    using h v e energy_cost_accounting [of "1/2" 1 "gateState MANUAL 5 40 50" "[]" 0]
    by (simp add: ELEC_RATE_UZS_def)
  have r: "initialState 0 = run [] (initialState 0)" by simp
  have w2: "totalEnergy (systemState (initialState 0))
     \<le> totalEnergy (systemState (tickSimulation (1/2) 1 (initialState 0))) \<and>
   totalCost (systemState (initialState 0))
     \<le> totalCost (systemState (tickSimulation (1/2) 1 (initialState 0)))"
    using r energy_cost_accounting [of "1/2" 1 "initialState 0" "[]" 0] by blast
  from h w1 r w2 show ?thesis by blast
qed

section \<open>C8: the life cycle of an order\<close>






section \<open>C9: cancellation\<close>

text \<open>
  Claim C9 says that cancelling moves the status of the order to \<open>CANCELLED\<close>.
  \<^verbatim>\<open>handleCancelOrder\<close> only clears the slot: after it no cell holds an order with that
  status; the copy in the ref is still \<open>ACTIVE\<close>, and is dropped by the effects.
\<close>

theorem cancel_status_counterexample:
  "map status (allOrders orderState) = [ACTIVE, ACTIVE] \<and>
   map status (allOrders (handleCancelOrder orderState)) = [ACTIVE] \<and>
   activeOrder (handleCancelOrder orderState) = None \<and>
   lastCompletedOrder (handleCancelOrder orderState) = None \<and>
   map status (allOrders (runEffects 9 (handleCancelOrder orderState))) = []"
  by (simp add: allOrders_def heldOrders_def slotOrders_def handleCancelOrder_def
      runEffects_def syncActiveOrderRef_def completionCheck_def sample_defs)

text \<open>
  Claim C9, amended. Cancelling clears the active-order slot and discards the order: the
  last completed order is unchanged, a tick or the effects after the cancellation leave
  the slot empty (nothing is accumulated, nothing is completed), and no status is written:
  in no run from the initial state does any cell hold an order with the status
  \<open>CANCELLED\<close>.
\<close>

theorem cancel_discards_order:
  "activeOrder (handleCancelOrder a) = None \<and>
   lastCompletedOrder (handleCancelOrder a) = lastCompletedOrder a \<and>
   activeOrder (tickSimulation rnd now (handleCancelOrder a)) = None \<and>
   lastCompletedOrder (tickSimulation rnd now (handleCancelOrder a)) = lastCompletedOrder a \<and>
   activeOrder (runEffects t (handleCancelOrder a)) = None \<and>
   activeOrderRef (runEffects t (handleCancelOrder a)) = None \<and>
   lastCompletedOrder (runEffects t (handleCancelOrder a)) = lastCompletedOrder a \<and>
   CANCELLED \<notin> set (map status (allOrders (run es (initialState t0))))"
proof -
  have c: "activeOrder (handleCancelOrder a) = None \<and>
   lastCompletedOrder (handleCancelOrder a) = lastCompletedOrder a"
    by (simp add: handleCancelOrder_def)
  then have k: "activeOrder (tickSimulation rnd now (handleCancelOrder a)) = None \<and>
   lastCompletedOrder (tickSimulation rnd now (handleCancelOrder a)) = lastCompletedOrder a"
    by (simp add: tick_activeOrder_None tick_lastCompleted)
  have e: "activeOrder (runEffects t (handleCancelOrder a)) = None \<and>
   activeOrderRef (runEffects t (handleCancelOrder a)) = None \<and>
   lastCompletedOrder (runEffects t (handleCancelOrder a)) = lastCompletedOrder a"
    by (simp add: handleCancelOrder_def runEffects_def syncActiveOrderRef_def
        completionCheck_def)
  from c k e orderInv_not_cancelled [OF reachable_orderInv, of es t0]
  show ?thesis by blast
qed

theorem cancel_discards_order_witness:
  "activeOrder (handleCancelOrder orderState) = None \<and>
   lastCompletedOrder (handleCancelOrder orderState) = None \<and>
   activeOrder (tickSimulation (1/2) 3 (handleCancelOrder orderState)) = None \<and>
   CANCELLED \<notin> set (map status (allOrders
      (run [StartOrder ''First'' 50 1 1, Effects 2, CancelOrder, Effects 3] (initialState 0))))"
  using cancel_discards_order [of orderState "1/2" 3 0
      "[StartOrder ''First'' 50 1 1, Effects 2, CancelOrder, Effects 3]" 0]
  by (simp add: sample_defs)

section \<open>C10: the frame of the order update\<close>

text \<open>
  Claim C10. The order after a tick is the order before it with only the delivered volume
  and the consumed power replaced: identifier, client name, hectares, target volume, start
  time, status, end time and water cost are unchanged. The water cost of a new order is 0,
  it is 0 for every order held in any run from the initial state, and the report computes
  its water cost from the delivered volume, whatever that field holds.
\<close>

theorem tick_order_frame:
  "(activeOrder a = Some ord \<longrightarrow>
      (\<exists>dv pc. activeOrder (tickSimulation rnd now a) =
         Some (ord\<lparr>deliveredVolume := dv, powerConsumed := pc\<rparr>)) \<and>
      map_option id_order (activeOrder (tickSimulation rnd now a)) = Some (id_order ord) \<and>
      map_option clientName (activeOrder (tickSimulation rnd now a)) = Some (clientName ord) \<and>
      map_option hectares (activeOrder (tickSimulation rnd now a)) = Some (hectares ord) \<and>
      map_option targetVolume (activeOrder (tickSimulation rnd now a))
        = Some (targetVolume ord) \<and>
      map_option startTime (activeOrder (tickSimulation rnd now a)) = Some (startTime ord) \<and>
      map_option status (activeOrder (tickSimulation rnd now a)) = Some (status ord) \<and>
      map_option endTime (activeOrder (tickSimulation rnd now a)) = Some (endTime ord) \<and>
      map_option waterCost (activeOrder (tickSimulation rnd now a)) = Some (waterCost ord)) \<and>
   map_option waterCost (activeOrder (handleStartOrder name ha idNow startNow a)) = Some 0 \<and>
   (\<forall>held \<in> set (allOrders (run es (initialState t0))). waterCost held = 0) \<and>
   reportWaterCost (ord\<lparr>waterCost := w\<rparr>) = deliveredVolume ord * WATER_COST_PER_M3"
proof -
  have f: "activeOrder a = Some ord \<longrightarrow>
      (\<exists>dv pc. activeOrder (tickSimulation rnd now a) =
         Some (ord\<lparr>deliveredVolume := dv, powerConsumed := pc\<rparr>)) \<and>
      map_option id_order (activeOrder (tickSimulation rnd now a)) = Some (id_order ord) \<and>
      map_option clientName (activeOrder (tickSimulation rnd now a)) = Some (clientName ord) \<and>
      map_option hectares (activeOrder (tickSimulation rnd now a)) = Some (hectares ord) \<and>
      map_option targetVolume (activeOrder (tickSimulation rnd now a))
        = Some (targetVolume ord) \<and>
      map_option startTime (activeOrder (tickSimulation rnd now a)) = Some (startTime ord) \<and>
      map_option status (activeOrder (tickSimulation rnd now a)) = Some (status ord) \<and>
      map_option endTime (activeOrder (tickSimulation rnd now a)) = Some (endTime ord) \<and>
      map_option waterCost (activeOrder (tickSimulation rnd now a)) = Some (waterCost ord)"
  proof
    assume "activeOrder a = Some ord"
    from tick_activeOrder_shape [OF this, of rnd now]
    obtain dv pc where "activeOrder (tickSimulation rnd now a) =
         Some (ord\<lparr>deliveredVolume := dv, powerConsumed := pc\<rparr>)" by blast
    then show "(\<exists>dv pc. activeOrder (tickSimulation rnd now a) =
         Some (ord\<lparr>deliveredVolume := dv, powerConsumed := pc\<rparr>)) \<and>
      map_option id_order (activeOrder (tickSimulation rnd now a)) = Some (id_order ord) \<and>
      map_option clientName (activeOrder (tickSimulation rnd now a)) = Some (clientName ord) \<and>
      map_option hectares (activeOrder (tickSimulation rnd now a)) = Some (hectares ord) \<and>
      map_option targetVolume (activeOrder (tickSimulation rnd now a))
        = Some (targetVolume ord) \<and>
      map_option startTime (activeOrder (tickSimulation rnd now a)) = Some (startTime ord) \<and>
      map_option status (activeOrder (tickSimulation rnd now a)) = Some (status ord) \<and>
      map_option endTime (activeOrder (tickSimulation rnd now a)) = Some (endTime ord) \<and>
      map_option waterCost (activeOrder (tickSimulation rnd now a)) = Some (waterCost ord)"
      by auto
  qed
  have s: "map_option waterCost (activeOrder (handleStartOrder name ha idNow startNow a)) = Some 0"
    by (simp add: handleStartOrder_def)
  have r: "\<forall>held \<in> set (allOrders (run es (initialState t0))). waterCost held = 0"
    using orderInv_waterCost [OF reachable_orderInv] by blast
  have w: "reportWaterCost (ord\<lparr>waterCost := w\<rparr>) = deliveredVolume ord * WATER_COST_PER_M3"
    by (simp add: reportWaterCost_def)
  from f s r w show ?thesis by blast
qed

theorem tick_order_frame_witness:
  "activeOrder orderState = Some sampleOrder \<and>
   map_option clientName (activeOrder (tickSimulation (1/2) 3 orderState))
     = Some ''Javlon Dehqon'' \<and>
   map_option targetVolume (activeOrder (tickSimulation (1/2) 3 orderState)) = Some 50000 \<and>
   map_option status (activeOrder (tickSimulation (1/2) 3 orderState)) = Some ACTIVE \<and>
   map_option waterCost (activeOrder (tickSimulation (1/2) 3 orderState)) = Some 0 \<and>
   map waterCost (allOrders (run [StartOrder ''First'' 50 1 1, Effects 2] (initialState 0)))
     = [0, 0] \<and>
   reportWaterCost (sampleOrder\<lparr>waterCost := 0\<rparr>) = 50000"
proof -
  have h: "activeOrder orderState = Some sampleOrder"
    by (simp add: sample_defs)
  have n: "length (allOrders (run [StartOrder ''First'' 50 1 1, Effects 2] (initialState 0))) = 2"
    by (simp add: allOrders_def heldOrders_def slotOrders_def handleStartOrder_def
        runEffects_def syncActiveOrderRef_def completionCheck_def initialState_def)
  have v: "clientName sampleOrder = ''Javlon Dehqon'' \<and> targetVolume sampleOrder = 50000 \<and>
    status sampleOrder = ACTIVE \<and> waterCost sampleOrder = 0 \<and> deliveredVolume sampleOrder = 500"
    by (simp add: sample_defs)
  have m: "map waterCost xs = [0, 0]"
    if "length xs = 2" "\<forall>held \<in> set xs. waterCost held = 0" for xs :: "WateringOrder list"
  proof -
    from that(1) obtain x y where "xs = [x, y]"
      by (cases xs; cases "tl xs") auto
    with that(2) show ?thesis by simp
  qed
  have r: "map waterCost (allOrders (run [StartOrder ''First'' 50 1 1, Effects 2] (initialState 0)))
     = [0, 0]"
    using n tick_order_frame [of orderState sampleOrder "1/2" 3 "''x''" 1 1 1
      "[StartOrder ''First'' 50 1 1, Effects 2]" 0 0] m by blast
  show ?thesis
    using h r v tick_order_frame [of orderState sampleOrder "1/2" 3 "''x''" 1 1 1
      "[StartOrder ''First'' 50 1 1, Effects 2]" 0 0]
    by (simp add: WATER_COST_PER_M3_def)
qed

end
